theory Spec2Isabelle
  imports
    Main
    "HOL-Library.Word"
    "HOL-Library.Char_ord"
    "HOL-Library.List_Lexorder"
begin

section \<open>The node entry of heketi (apps/glusterfs/node\_entry.go)\<close>

text \<open>
  A shallow embedding of \<^verbatim>\<open>node_entry.go\<close>. A Go method with a pointer receiver
  that assigns to fields of the receiver becomes a function returning the updated record;
  a pair \<^verbatim>\<open>(value, error)\<close> becomes a sum with the error on the left;
  \<^verbatim>\<open>godbc.Require\<close> (default build) becomes the outcome \<open>Panic\<close>.
\<close>

subsection \<open>Data\<close>

type_synonym uint64 = "64 word"
type_synonym bytes = "8 word list"

text \<open>
  Modelled from the spec: the capacity triple \<^verbatim>\<open>Storage\<close> of the node (its Go type is
  declared outside \<^verbatim>\<open>node_entry.go\<close>); the file uses the fields \<^verbatim>\<open>Total\<close>,
  \<^verbatim>\<open>Free\<close>, \<^verbatim>\<open>Used\<close> with \<^verbatim>\<open>uint64\<close> amounts.
\<close>

record StorageSize =
  Total :: uint64
  Free :: uint64
  Used :: uint64

text \<open>
  Modelled from the spec: \<^verbatim>\<open>NodeInfo\<close> (declared outside \<^verbatim>\<open>node_entry.go\<close>), with
  the five fields the file reads and writes. The field \<^verbatim>\<open>Id\<close> is named \<open>Id_node\<close>
  here, since \<open>Id\<close> is the identity relation of HOL.
\<close>

record NodeInfo =
  Zone :: int
  Hostnames :: "string list"
  ClusterId :: string
  Id_node :: string
  Storage :: StorageSize

text \<open>
  \<^verbatim>\<open>type NodeEntry struct { Info NodeInfo; Devices sort.StringSlice }\<close>.
  A Go slice is either \<^verbatim>\<open>nil\<close> (\<open>None\<close>) or a sequence (\<open>Some xs\<close>, where
  \<open>Some []\<close> is the empty slice that \<^verbatim>\<open>make(sort.StringSlice, 0)\<close> returns).
\<close>

record NodeEntry =
  Info :: NodeInfo
  Devices :: "string list option"

text \<open>The elements of a slice: \<^verbatim>\<open>len\<close>, \<^verbatim>\<open>range\<close> and \<^verbatim>\<open>append\<close> treat
  \<^verbatim>\<open>nil\<close> as the empty sequence.\<close>

definition slice_elems :: "string list option \<Rightarrow> string list" where
  "slice_elems s = (case s of None \<Rightarrow> [] | Some xs \<Rightarrow> xs)"

text \<open>The zero values of the Go types.\<close>

definition zero_StorageSize :: StorageSize where
  "zero_StorageSize = \<lparr>Total = 0, Free = 0, Used = 0\<rparr>"

definition zero_NodeInfo :: NodeInfo where
  "zero_NodeInfo =
     \<lparr>Zone = 0, Hostnames = [], ClusterId = [], Id_node = [], Storage = zero_StorageSize\<rparr>"

definition NewNodeEntry :: NodeEntry where
  "NewNodeEntry = \<lparr>Info = zero_NodeInfo, Devices = Some []\<rparr>"

subsection \<open>Capacity accounting\<close>

definition StorageAdd :: "NodeEntry \<Rightarrow> uint64 \<Rightarrow> NodeEntry" where
  "StorageAdd n amount =
     (let n1 = n\<lparr>Info := (Info n)\<lparr>Storage := (Storage (Info n))
                 \<lparr>Free := Free (Storage (Info n)) + amount\<rparr>\<rparr>\<rparr>
      in n1\<lparr>Info := (Info n1)\<lparr>Storage := (Storage (Info n1))
                 \<lparr>Total := Total (Storage (Info n1)) + amount\<rparr>\<rparr>\<rparr>)"

definition StorageAllocate :: "NodeEntry \<Rightarrow> uint64 \<Rightarrow> NodeEntry" where
  "StorageAllocate n amount =
     (let n1 = n\<lparr>Info := (Info n)\<lparr>Storage := (Storage (Info n))
                 \<lparr>Free := Free (Storage (Info n)) - amount\<rparr>\<rparr>\<rparr>
      in n1\<lparr>Info := (Info n1)\<lparr>Storage := (Storage (Info n1))
                 \<lparr>Used := Used (Storage (Info n1)) + amount\<rparr>\<rparr>\<rparr>)"

definition StorageFree :: "NodeEntry \<Rightarrow> uint64 \<Rightarrow> NodeEntry" where
  "StorageFree n amount =
     (let n1 = n\<lparr>Info := (Info n)\<lparr>Storage := (Storage (Info n))
                 \<lparr>Free := Free (Storage (Info n)) + amount\<rparr>\<rparr>\<rparr>
      in n1\<lparr>Info := (Info n1)\<lparr>Storage := (Storage (Info n1))
                 \<lparr>Used := Used (Storage (Info n1)) - amount\<rparr>\<rparr>\<rparr>)"

definition StorageDelete :: "NodeEntry \<Rightarrow> uint64 \<Rightarrow> NodeEntry" where
  "StorageDelete n amount =
     (let n1 = n\<lparr>Info := (Info n)\<lparr>Storage := (Storage (Info n))
                 \<lparr>Total := Total (Storage (Info n)) - amount\<rparr>\<rparr>\<rparr>
      in n1\<lparr>Info := (Info n1)\<lparr>Storage := (Storage (Info n1))
                 \<lparr>Free := Free (Storage (Info n1)) - amount\<rparr>\<rparr>\<rparr>)"

text \<open>A sequence of accounting calls on one record, in order.\<close>

datatype storage_call =
  CallStorageAdd uint64
  | CallStorageAllocate uint64
  | CallStorageFree uint64
  | CallStorageDelete uint64

fun storage_call_apply :: "NodeEntry \<Rightarrow> storage_call \<Rightarrow> NodeEntry" where
  "storage_call_apply n (CallStorageAdd a) = StorageAdd n a"
| "storage_call_apply n (CallStorageAllocate a) = StorageAllocate n a"
| "storage_call_apply n (CallStorageFree a) = StorageFree n a"
| "storage_call_apply n (CallStorageDelete a) = StorageDelete n a"

fun storage_calls :: "NodeEntry \<Rightarrow> storage_call list \<Rightarrow> NodeEntry" where
  "storage_calls n [] = n"
| "storage_calls n (c # cs) = storage_calls (storage_call_apply n c) cs"

text \<open>
  Matched amounts: a call never takes from a counter more than the counter holds at
  the moment of the call (\<open>\<le>\<close> on words compares the unsigned values).
\<close>

fun storage_call_matched :: "NodeEntry \<Rightarrow> storage_call \<Rightarrow> bool" where
  "storage_call_matched n (CallStorageAdd a) = True"
| "storage_call_matched n (CallStorageAllocate a) = (a \<le> Free (Storage (Info n)))"
| "storage_call_matched n (CallStorageFree a) = (a \<le> Used (Storage (Info n)))"
| "storage_call_matched n (CallStorageDelete a) =
     (a \<le> Total (Storage (Info n)) \<and> a \<le> Free (Storage (Info n)))"

fun storage_calls_matched :: "NodeEntry \<Rightarrow> storage_call list \<Rightarrow> bool" where
  "storage_calls_matched n [] = True"
| "storage_calls_matched n (c # cs) =
     (storage_call_matched n c \<and> storage_calls_matched (storage_call_apply n c) cs)"

text \<open>\<^verbatim>\<open>Total == Used + Free\<close>, as Go evaluates it on \<^verbatim>\<open>uint64\<close>.\<close>

definition capacity_conserved :: "NodeEntry \<Rightarrow> bool" where
  "capacity_conserved n =
     (Total (Storage (Info n)) = Used (Storage (Info n)) + Free (Storage (Info n)))"

text \<open>The same equation read on the unsigned values: a congruence modulo \<open>2 ^ 64\<close>.\<close>

definition capacity_conserved_mod :: "NodeEntry \<Rightarrow> bool" where
  "capacity_conserved_mod n =
     (unat (Total (Storage (Info n))) mod 2 ^ 64 =
      (unat (Used (Storage (Info n))) + unat (Free (Storage (Info n)))) mod 2 ^ 64)"

text \<open>The equation on the unsigned values without wrap-around, and the calls that keep
  every addition below \<open>2 ^ 64\<close>.\<close>

definition capacity_exact :: "NodeEntry \<Rightarrow> bool" where
  "capacity_exact n =
     (unat (Total (Storage (Info n))) =
      unat (Used (Storage (Info n))) + unat (Free (Storage (Info n))))"

fun storage_calls_no_overflow :: "NodeEntry \<Rightarrow> storage_call list \<Rightarrow> bool" where
  "storage_calls_no_overflow n [] = True"
| "storage_calls_no_overflow n (CallStorageAdd a # cs) =
     (unat (Total (Storage (Info n))) + unat a < 2 ^ 64 \<and>
      storage_calls_no_overflow (StorageAdd n a) cs)"
| "storage_calls_no_overflow n (c # cs) =
     storage_calls_no_overflow (storage_call_apply n c) cs"

subsection \<open>Contract checks\<close>

text \<open>
  \<^verbatim>\<open>godbc.Require(cond)\<close> aborts the call with a panic when \<open>cond\<close> is false (the
  default build of the library). A function that starts with such a check returns an
  outcome: \<open>Panic\<close>, or \<open>Done\<close> with what the Go function returns.
\<close>

datatype 'a outcome = Panic | Done 'a

subsection \<open>The device set\<close>

text \<open>
  Modelled from the spec: \<^verbatim>\<open>utils.SortedStringHas\<close>, a helper of the repository that
  is not in \<^verbatim>\<open>node_entry.go\<close>. The spec gives the check of \<^verbatim>\<open>DeviceAdd\<close> as
  "\<open>id\<close> is not already present in \<open>Devices\<close>".
\<close>

definition SortedStringHas :: "string list option \<Rightarrow> string \<Rightarrow> bool" where
  "SortedStringHas s x = (x \<in> set (slice_elems s))"

text \<open>
  Modelled from the spec: \<^verbatim>\<open>utils.SortedStringsDelete\<close>, a helper of the repository
  that is not in \<^verbatim>\<open>node_entry.go\<close>. The spec: it "removes \<open>id\<close> from \<open>Devices\<close> if
  present, preserving sortedness; removing an absent id is a no-op".
\<close>

definition SortedStringsDelete :: "string list option \<Rightarrow> string \<Rightarrow> string list option" where
  "SortedStringsDelete s x = (if x \<in> set (slice_elems s) then Some (remove1 x (slice_elems s)) else s)"

text \<open>
  \<^verbatim>\<open>n.Devices.Sort()\<close> is \<^verbatim>\<open>sort.Sort\<close> of the Go library on a
  \<^verbatim>\<open>sort.StringSlice\<close>: it leaves the elements in ascending order of Go's \<^verbatim>\<open><\<close> on
  strings, the bytewise lexicographic order, which is the order of \<open>string\<close> here.
  The ascending arrangement of a list in a linear order is unique, so the result is
  \<open>sort\<close> of the list. \<^verbatim>\<open>godbc.Require(!utils.SortedStringHas(n.Devices, id))\<close>
  panics when the identifier is found.
\<close>

definition DeviceAdd :: "NodeEntry \<Rightarrow> string \<Rightarrow> NodeEntry outcome" where
  "DeviceAdd n id' =
     (if SortedStringHas (Devices n) id' then Panic
      else
        let n1 = n\<lparr>Devices := Some (slice_elems (Devices n) @ [id'])\<rparr>
        in Done (n1\<lparr>Devices := Some (sort (slice_elems (Devices n1)))\<rparr>))"

definition DeviceDelete :: "NodeEntry \<Rightarrow> string \<Rightarrow> NodeEntry" where
  "DeviceDelete n id' = n\<lparr>Devices := SortedStringsDelete (Devices n) id'\<rparr>"

text \<open>A sequence of calls on one record, in order; a panic ends it.\<close>

datatype device_call = CallDeviceAdd string | CallDeviceDelete string

fun device_calls :: "NodeEntry \<Rightarrow> device_call list \<Rightarrow> NodeEntry outcome" where
  "device_calls n [] = Done n"
| "device_calls n (CallDeviceAdd id' # cs) =
     (case DeviceAdd n id' of Panic \<Rightarrow> Panic | Done n' \<Rightarrow> device_calls n' cs)"
| "device_calls n (CallDeviceDelete id' # cs) = device_calls (DeviceDelete n id') cs"

text \<open>
  Every \<^verbatim>\<open>DeviceAdd\<close> of the sequence gets an identifier that is not present at the
  moment of the call, where \<open>present\<close> is the set of identifiers in \<^verbatim>\<open>Devices\<close>:
  those of the start and those added since, without those deleted since.
\<close>

fun device_calls_respect :: "string set \<Rightarrow> device_call list \<Rightarrow> bool" where
  "device_calls_respect present [] = True"
| "device_calls_respect present (CallDeviceAdd id' # cs) =
     (id' \<notin> present \<and> device_calls_respect (insert id' present) cs)"
| "device_calls_respect present (CallDeviceDelete id' # cs) =
     device_calls_respect (present - {id'}) cs"

text \<open>Strictly ascending, hence without duplicates.\<close>

definition devices_strictly_ascending :: "NodeEntry \<Rightarrow> bool" where
  "devices_strictly_ascending n = sorted_wrt (<) (slice_elems (Devices n))"

subsection \<open>The store and the codec\<close>

text \<open>
  The errors of the file: the two error values of the package (\<^verbatim>\<open>ErrNotFound\<close>,
  \<^verbatim>\<open>ErrConflict\<close>, declared outside \<^verbatim>\<open>node_entry.go\<close>), a fresh error made by
  \<^verbatim>\<open>errors.New\<close> with its message, an error of the \<^verbatim>\<open>encoding/gob\<close> codec and an
  error of the bolt store, each passed on as it is.
\<close>

datatype error =
  ErrNotFound
  | ErrConflict
  | ErrorsNew string
  | GobError string
  | BoltError string

text \<open>
  The transaction of the external bolt store, as far as the file uses it (the
  collaborator of the spec, section 6): \<^verbatim>\<open>tx.Bucket(name)\<close> is the bucket or
  \<^verbatim>\<open>nil\<close>, \<^verbatim>\<open>b.Get(key)\<close> the value or \<^verbatim>\<open>nil\<close>, \<^verbatim>\<open>b.Delete(key)\<close> removes the
  key, does nothing when the key is absent, and fails only in a read-only transaction.
  A key \<^verbatim>\<open>[]byte(id)\<close> is identified with the string \<open>id\<close>.
\<close>

record Tx =
  writable :: bool
  buckets :: "string \<rightharpoonup> (string \<rightharpoonup> bytes)"

definition tx_Bucket :: "Tx \<Rightarrow> string \<Rightarrow> (string \<rightharpoonup> bytes) option" where
  "tx_Bucket tx name = buckets tx name"

definition bucket_Get :: "(string \<rightharpoonup> bytes) \<Rightarrow> string \<Rightarrow> bytes option" where
  "bucket_Get b key = b key"

definition bucket_Delete ::
  "Tx \<Rightarrow> string \<Rightarrow> (string \<rightharpoonup> bytes) \<Rightarrow> string \<Rightarrow> error option \<times> Tx" where
  "bucket_Delete tx name b key =
     (if \<not> writable tx then (Some (BoltError ''tx not writable''), tx)
      else (None, tx\<lparr>buckets := (buckets tx)(name \<mapsto> b(key := None))\<rparr>))"

text \<open>
  Modelled from the spec: the name of the node namespace; the constant
  \<^verbatim>\<open>BOLTDB_BUCKET_NODE\<close> is declared outside \<^verbatim>\<open>node_entry.go\<close>, and nothing below
  depends on the string chosen.
\<close>

definition BOLTDB_BUCKET_NODE :: string where
  "BOLTDB_BUCKET_NODE = ''NODE''"

text \<open>
  The \<^verbatim>\<open>encoding/gob\<close> codec is a library outside the repository; the two calls the
  file makes are parameters. \<^verbatim>\<open>enc.Encode(*n)\<close> gives the bytes written to the buffer
  and an error or none; \<^verbatim>\<open>dec.Decode(n)\<close> decodes into the receiver \<open>n\<close> and gives
  the receiver as it is afterwards and an error or none.
\<close>

type_synonym gob_encode = "NodeEntry \<Rightarrow> bytes \<times> string option"
type_synonym gob_decode = "bytes \<Rightarrow> NodeEntry \<Rightarrow> NodeEntry \<times> string option"

definition Marshal :: "gob_encode \<Rightarrow> NodeEntry \<Rightarrow> bytes \<times> error option" where
  "Marshal Encode n = (case Encode n of (buffer, err) \<Rightarrow> (buffer, map_option GobError err))"

definition Unmarshal :: "gob_decode \<Rightarrow> NodeEntry \<Rightarrow> bytes \<Rightarrow> NodeEntry \<times> error option" where
  "Unmarshal Decode n buffer =
     (case Decode buffer n of
        (n', Some err) \<Rightarrow> (n', Some (GobError err))
      | (n', None) \<Rightarrow>
          if Devices n' = None then (n'\<lparr>Devices := Some []\<rparr>, None) else (n', None))"

definition NewNodeEntryFromId ::
  "gob_decode \<Rightarrow> Tx option \<Rightarrow> string \<Rightarrow> (error + NodeEntry) outcome" where
  "NewNodeEntryFromId Decode tx id' =
     (case tx of
        None \<Rightarrow> Panic
      | Some t \<Rightarrow>
          Done (let entry = NewNodeEntry in
            case tx_Bucket t BOLTDB_BUCKET_NODE of
              None \<Rightarrow> Inl (ErrorsNew ''Unable to create node entry'')
            | Some b \<Rightarrow>
                (case bucket_Get b id' of
                   None \<Rightarrow> Inl ErrNotFound
                 | Some val \<Rightarrow>
                     (case Unmarshal Decode entry val of
                        (entry', Some err) \<Rightarrow> Inl err
                      | (entry', None) \<Rightarrow> Inr entry'))))"

text \<open>\<^verbatim>\<open>Delete\<close> assigns to no field of the receiver; it returns the error or none, and
  the transaction as it is afterwards.\<close>

definition Delete :: "NodeEntry \<Rightarrow> Tx option \<Rightarrow> (error option \<times> Tx) outcome" where
  "Delete n tx =
     (case tx of
        None \<Rightarrow> Panic
      | Some t \<Rightarrow>
          Done (if length (slice_elems (Devices n)) > 0 then (Some ErrConflict, t)
            else
              case tx_Bucket t BOLTDB_BUCKET_NODE of
                None \<Rightarrow> (Some (ErrorsNew ''Unable to access database''), t)
              | Some b \<Rightarrow>
                  (case bucket_Delete t BOLTDB_BUCKET_NODE b (Id_node (Info n)) of
                     (Some err, t') \<Rightarrow> (Some err, t')
                   | (None, t') \<Rightarrow> (None, t'))))"

subsection \<open>The view of a node\<close>

text \<open>
  Modelled from the spec: \<^verbatim>\<open>NodeInfoResponse\<close> (declared outside
  \<^verbatim>\<open>node_entry.go\<close>): the fields of \<^verbatim>\<open>NodeInfo\<close> and \<^verbatim>\<open>DevicesInfo\<close>, an ordered
  sequence of device views. The type of a device view is a parameter.
\<close>

record 'di NodeInfoResponse = NodeInfo +
  DevicesInfo :: "'di list"

text \<open>
  \<^verbatim>\<open>NewDeviceEntryFromId\<close> and the method \<^verbatim>\<open>NewInfoResponse\<close> of a device entry belong
  to the device record, which is not in \<^verbatim>\<open>node_entry.go\<close>: they are the parameters
  \<open>load\<close> and \<open>view\<close>, each returning an error or a value. The loop over
  \<^verbatim>\<open>n.Devices\<close>:
\<close>

fun NewInfoReponse_loop ::
  "(Tx \<Rightarrow> string \<Rightarrow> error + 'dev) \<Rightarrow> ('dev \<Rightarrow> Tx \<Rightarrow> error + 'di) \<Rightarrow> Tx \<Rightarrow> string list
     \<Rightarrow> 'di NodeInfoResponse \<Rightarrow> error + 'di NodeInfoResponse" where
  "NewInfoReponse_loop load view tx [] info = Inr info"
| "NewInfoReponse_loop load view tx (deviceid # rest) info =
     (case load tx deviceid of
        Inl err \<Rightarrow> Inl err
      | Inr device \<Rightarrow>
          (case view device tx of
             Inl err \<Rightarrow> Inl err
           | Inr driveinfo \<Rightarrow>
               NewInfoReponse_loop load view tx rest
                 (info\<lparr>DevicesInfo := DevicesInfo info @ [driveinfo]\<rparr>)))"

definition NewInfoReponse ::
  "(Tx \<Rightarrow> string \<Rightarrow> error + 'dev) \<Rightarrow> ('dev \<Rightarrow> Tx \<Rightarrow> error + 'di) \<Rightarrow> NodeEntry \<Rightarrow> Tx option
     \<Rightarrow> (error + 'di NodeInfoResponse) outcome" where
  "NewInfoReponse load view n tx =
     (case tx of
        None \<Rightarrow> Panic
      | Some t \<Rightarrow>
          Done (let info =
                  \<lparr>Zone = Zone (Info n), Hostnames = Hostnames (Info n),
                   ClusterId = ClusterId (Info n), Id_node = Id_node (Info n),
                   Storage = Storage (Info n), DevicesInfo = []\<rparr>
                in NewInfoReponse_loop load view t (slice_elems (Devices n)) info))"

text \<open>Resolving one identifier: load the device, then project it.\<close>

definition resolve_device ::
  "(Tx \<Rightarrow> string \<Rightarrow> error + 'dev) \<Rightarrow> ('dev \<Rightarrow> Tx \<Rightarrow> error + 'di) \<Rightarrow> Tx \<Rightarrow> string
     \<Rightarrow> error + 'di" where
  "resolve_device load view tx deviceid =
     (case load tx deviceid of Inl err \<Rightarrow> Inl err | Inr device \<Rightarrow> view device tx)"

text \<open>A record used to run the theorems below on concrete values.\<close>

definition node_10_7_3 :: NodeEntry where
  "node_10_7_3 =
     \<lparr>Info = \<lparr>Zone = 1, Hostnames = [''h1''], ClusterId = ''c1'', Id_node = ''n1'',
              Storage = \<lparr>Total = 10, Free = 7, Used = 3\<rparr>\<rparr>,
      Devices = Some []\<rparr>"

text \<open>A record whose \<^verbatim>\<open>Total\<close> is the largest \<^verbatim>\<open>uint64\<close>.\<close>

definition node_full :: NodeEntry where
  "node_full =
     \<lparr>Info = \<lparr>Zone = 1, Hostnames = [''h1''], ClusterId = ''c1'', Id_node = ''n1'',
              Storage = \<lparr>Total = 18446744073709551615, Free = 0,
                         Used = 18446744073709551615\<rparr>\<rparr>,
      Devices = Some []\<rparr>"

definition node_d1_d3 :: NodeEntry where
  "node_d1_d3 = node_10_7_3\<lparr>Devices := Some [''d1'', ''d3'']\<rparr>"

definition node_d1_d9_d3 :: NodeEntry where
  "node_d1_d9_d3 = node_10_7_3\<lparr>Devices := Some [''d1'', ''d9'', ''d3'']\<rparr>"

text \<open>Two transactions: one whose node bucket holds a value under \<open>''n1''\<close>, one
  without a node bucket.\<close>

definition tx_node_n1 :: Tx where
  "tx_node_n1 =
     \<lparr>writable = True, buckets = [BOLTDB_BUCKET_NODE \<mapsto> [''n1'' \<mapsto> [1, 2, 3]]]\<rparr>"

definition tx_no_bucket :: Tx where
  "tx_no_bucket = \<lparr>writable = True, buckets = Map.empty\<rparr>"

text \<open>
  Stand-ins for the codec and for the device record, to run the theorems on concrete
  values: a decoder that puts a fixed record into the receiver, a decoder that fails,
  a loader that knows every device but \<open>''d9''\<close> and a projection that always
  succeeds.
\<close>

definition decode_stub :: "NodeEntry \<Rightarrow> gob_decode" where
  "decode_stub m buffer n = (m, None)"

definition decode_fail_stub :: gob_decode where
  "decode_fail_stub buffer n = (n, Some ''unexpected EOF'')"

definition load_stub :: "Tx \<Rightarrow> string \<Rightarrow> error + string" where
  "load_stub tx deviceid = (if deviceid = ''d9'' then Inl ErrNotFound else Inr deviceid)"

definition view_stub :: "string \<Rightarrow> Tx \<Rightarrow> error + nat" where
  "view_stub device tx = Inr (length device)"

section \<open>Capacity accounting: conservation\<close>

lemma StorageAdd_fields:
  "Total (Storage (Info (StorageAdd n a))) = Total (Storage (Info n)) + a"
  "Free (Storage (Info (StorageAdd n a))) = Free (Storage (Info n)) + a"
  "Used (Storage (Info (StorageAdd n a))) = Used (Storage (Info n))"
  by (simp_all add: StorageAdd_def Let_def)

lemma StorageAllocate_fields:
  "Total (Storage (Info (StorageAllocate n a))) = Total (Storage (Info n))"
  "Free (Storage (Info (StorageAllocate n a))) = Free (Storage (Info n)) - a"
  "Used (Storage (Info (StorageAllocate n a))) = Used (Storage (Info n)) + a"
  by (simp_all add: StorageAllocate_def Let_def)

lemma StorageFree_fields:
  "Total (Storage (Info (StorageFree n a))) = Total (Storage (Info n))"
  "Free (Storage (Info (StorageFree n a))) = Free (Storage (Info n)) + a"
  "Used (Storage (Info (StorageFree n a))) = Used (Storage (Info n)) - a"
  by (simp_all add: StorageFree_def Let_def)

lemma StorageDelete_fields:
  "Total (Storage (Info (StorageDelete n a))) = Total (Storage (Info n)) - a"
  "Free (Storage (Info (StorageDelete n a))) = Free (Storage (Info n)) - a"
  "Used (Storage (Info (StorageDelete n a))) = Used (Storage (Info n))"
  by (simp_all add: StorageDelete_def Let_def)

lemmas Storage_fields =
  StorageAdd_fields StorageAllocate_fields StorageFree_fields StorageDelete_fields

lemma storage_call_apply_conserved:
  "capacity_conserved n \<Longrightarrow> capacity_conserved (storage_call_apply n c)"
  by (cases c) (simp_all add: capacity_conserved_def Storage_fields)

lemma storage_calls_conserved:
  "capacity_conserved n \<Longrightarrow> capacity_conserved (storage_calls n cs)"
  by (induction cs arbitrary: n) (simp_all add: storage_call_apply_conserved)

lemma unat_lt_2_64: "unat (x :: uint64) < 2 ^ 64"
  using unsigned_less [of x, where ?'a = nat] by simp

lemma capacity_conserved_mod_iff: "capacity_conserved_mod n \<longleftrightarrow> capacity_conserved n"
  unfolding capacity_conserved_def capacity_conserved_mod_def
  using unat_lt_2_64 [of "Total (Storage (Info n))"]
  by (simp add: word_unat_eq_iff unat_word_ariths)

lemma unat_sub_wraps: "(x :: uint64) < a \<Longrightarrow> unat (x - a) = unat x + 2 ^ 64 - unat a"
  by (simp add: unat_sub_if' word_less_nat_alt)

lemma storage_call_apply_exact:
  assumes "capacity_exact n" and "storage_call_matched n c"
    and "storage_calls_no_overflow n [c]"
  shows "capacity_exact (storage_call_apply n c)"
proof (cases c)
  case (CallStorageAdd a)
  with assms show ?thesis
    by (simp add: capacity_exact_def Storage_fields unat_word_ariths)
next
  case (CallStorageAllocate a)
  with assms unat_lt_2_64 [of "Total (Storage (Info n))"] show ?thesis
    by (simp add: capacity_exact_def Storage_fields unat_word_ariths unat_sub_if'
        word_le_nat_alt)
next
  case (CallStorageFree a)
  with assms unat_lt_2_64 [of "Total (Storage (Info n))"] show ?thesis
    by (simp add: capacity_exact_def Storage_fields unat_word_ariths unat_sub_if'
        word_le_nat_alt)
next
  case (CallStorageDelete a)
  with assms show ?thesis
    by (simp add: capacity_exact_def Storage_fields unat_sub_if' word_le_nat_alt)
qed

text \<open>
  Claim C1, as amended. Starting from a record in which \<^verbatim>\<open>Total\<close> is the sum of
  \<^verbatim>\<open>Used\<close> and \<^verbatim>\<open>Free\<close> as byte counts (the unsigned values, no wrap-around),
  every sequence of calls to \<^verbatim>\<open>StorageAdd\<close>, \<^verbatim>\<open>StorageAllocate\<close>,
  \<^verbatim>\<open>StorageFree\<close> and \<^verbatim>\<open>StorageDelete\<close> with matched amounts (no call takes
  more from a counter than it holds) in which, in addition, no \<^verbatim>\<open>StorageAdd\<close>
  carries \<^verbatim>\<open>Total\<close> past \<open>2 ^ 64 - 1\<close>, ends in a record in which \<^verbatim>\<open>Total\<close> is
  again the sum of \<^verbatim>\<open>Used\<close> and \<^verbatim>\<open>Free\<close> as byte counts.
\<close>

theorem storage_calls_matched_exact:
  "capacity_exact n \<Longrightarrow> storage_calls_matched n cs \<Longrightarrow> storage_calls_no_overflow n cs
     \<Longrightarrow> capacity_exact (storage_calls n cs)"
proof (induction cs arbitrary: n)
  case Nil
  then show ?case by simp
next
  case (Cons c cs)
  have step: "capacity_exact (storage_call_apply n c)"
    using Cons.prems by (intro storage_call_apply_exact) (cases c; simp)+
  have rest: "storage_calls_no_overflow (storage_call_apply n c) cs"
    using Cons.prems(3) by (cases c) simp_all
  from Cons.IH [OF step _ rest] Cons.prems(2) show ?case by simp
qed

theorem storage_calls_matched_exact_witness:
  "capacity_exact node_10_7_3 \<and>
   storage_calls_matched node_10_7_3
     [CallStorageAdd 5, CallStorageAllocate 2, CallStorageFree 4, CallStorageDelete 6] \<and>
   storage_calls_no_overflow node_10_7_3
     [CallStorageAdd 5, CallStorageAllocate 2, CallStorageFree 4, CallStorageDelete 6] \<and>
   capacity_exact (storage_calls node_10_7_3
     [CallStorageAdd 5, CallStorageAllocate 2, CallStorageFree 4, CallStorageDelete 6]) \<and>
   Storage (Info (storage_calls node_10_7_3
     [CallStorageAdd 5, CallStorageAllocate 2, CallStorageFree 4, CallStorageDelete 6])) =
     \<lparr>Total = 9, Free = 8, Used = 1\<rparr>"
proof -
  let ?cs = "[CallStorageAdd 5, CallStorageAllocate 2, CallStorageFree 4, CallStorageDelete 6]"
  have h1: "capacity_exact node_10_7_3"
    by (simp add: capacity_exact_def node_10_7_3_def)
  have h2: "storage_calls_matched node_10_7_3 ?cs"
    by (simp add: Storage_fields node_10_7_3_def)
  have h3: "storage_calls_no_overflow node_10_7_3 ?cs"
    by (simp add: Storage_fields node_10_7_3_def)
  have v: "Storage (Info (storage_calls node_10_7_3 ?cs)) = \<lparr>Total = 9, Free = 8, Used = 1\<rparr>"
    by (simp add: StorageAdd_def StorageAllocate_def StorageFree_def StorageDelete_def
        Let_def node_10_7_3_def)
  from h1 h2 h3 v storage_calls_matched_exact [OF h1 h2 h3] show ?thesis by simp
qed

text \<open>
  Without the bound on \<^verbatim>\<open>StorageAdd\<close> the equation on byte counts fails: with \<^verbatim>\<open>Total\<close> and
  \<^verbatim>\<open>Used\<close> at \<open>2 ^ 64 - 1\<close> and \<^verbatim>\<open>Free\<close> at \<open>0\<close>, the matched call
  \<^verbatim>\<open>StorageAdd(1)\<close> leaves \<^verbatim>\<open>Total\<close> at \<open>0\<close>, \<^verbatim>\<open>Free\<close> at \<open>1\<close> and
  \<^verbatim>\<open>Used\<close> at \<open>2 ^ 64 - 1\<close>. The functions check no range, so the wrap-around
  is what the code does on such an input.
\<close>

theorem storage_calls_matched_exact_counterexample:
  "capacity_exact node_full \<and>
   storage_calls_matched node_full [CallStorageAdd 1] \<and>
   \<not> capacity_exact (storage_calls node_full [CallStorageAdd 1])"
  by (simp add: capacity_exact_def node_full_def Storage_fields)

text \<open>
  Claim C9. On \<^verbatim>\<open>uint64\<close> counters each single call keeps
  \<open>Total \<equiv> Used + Free (mod 2 ^ 64)\<close> for every amount, matched or not; and a call
  that takes more than a counter holds leaves that counter at the wrapped value
  \<open>counter + 2 ^ 64 - amount\<close>: nothing is clamped at zero and no error is returned
  (the four functions return the record only).
\<close>

theorem storage_ops_conserved_mod_2_64:
  "(capacity_conserved_mod n \<longrightarrow>
      capacity_conserved_mod (StorageAdd n a) \<and>
      capacity_conserved_mod (StorageAllocate n a) \<and>
      capacity_conserved_mod (StorageFree n a) \<and>
      capacity_conserved_mod (StorageDelete n a)) \<and>
   (Free (Storage (Info n)) < a \<longrightarrow>
      unat (Free (Storage (Info (StorageAllocate n a)))) =
        unat (Free (Storage (Info n))) + 2 ^ 64 - unat a \<and>
      unat (Free (Storage (Info (StorageDelete n a)))) =
        unat (Free (Storage (Info n))) + 2 ^ 64 - unat a) \<and>
   (Used (Storage (Info n)) < a \<longrightarrow>
      unat (Used (Storage (Info (StorageFree n a)))) =
        unat (Used (Storage (Info n))) + 2 ^ 64 - unat a) \<and>
   (Total (Storage (Info n)) < a \<longrightarrow>
      unat (Total (Storage (Info (StorageDelete n a)))) =
        unat (Total (Storage (Info n))) + 2 ^ 64 - unat a)"
proof -
  have "capacity_conserved_mod (StorageAdd n a)"
    "capacity_conserved_mod (StorageAllocate n a)"
    "capacity_conserved_mod (StorageFree n a)"
    "capacity_conserved_mod (StorageDelete n a)"
    if "capacity_conserved_mod n"
    using that
    by (simp_all add: capacity_conserved_mod_iff capacity_conserved_def Storage_fields)
  then show ?thesis
    by (simp add: Storage_fields unat_sub_wraps)
qed

theorem storage_ops_conserved_mod_2_64_witness:
  "capacity_conserved_mod node_10_7_3 \<and>
   Free (Storage (Info node_10_7_3)) < 8 \<and>
   capacity_conserved_mod (StorageAllocate node_10_7_3 8) \<and>
   unat (Free (Storage (Info (StorageAllocate node_10_7_3 8)))) = 18446744073709551615 \<and>
   Used (Storage (Info node_10_7_3)) < 4 \<and>
   unat (Used (Storage (Info (StorageFree node_10_7_3 4)))) = 18446744073709551615 \<and>
   Total (Storage (Info node_10_7_3)) < 11 \<and>
   unat (Total (Storage (Info (StorageDelete node_10_7_3 11)))) = 18446744073709551615"
proof -
  have h: "capacity_conserved_mod node_10_7_3"
    by (simp add: capacity_conserved_mod_def node_10_7_3_def)
  have f: "Free (Storage (Info node_10_7_3)) = 7" "Used (Storage (Info node_10_7_3)) = 3"
    "Total (Storage (Info node_10_7_3)) = 10"
    by (simp_all add: node_10_7_3_def)
  from h f storage_ops_conserved_mod_2_64 [of node_10_7_3 8]
    storage_ops_conserved_mod_2_64 [of node_10_7_3 4]
    storage_ops_conserved_mod_2_64 [of node_10_7_3 11]
  show ?thesis by simp
qed

section \<open>The device set: order and removal\<close>

lemma DeviceAdd_ascending:
  assumes "devices_strictly_ascending n" and "id' \<notin> set (slice_elems (Devices n))"
  shows "\<exists>n'. DeviceAdd n id' = Done n' \<and> devices_strictly_ascending n' \<and>
           set (slice_elems (Devices n')) = insert id' (set (slice_elems (Devices n)))"
  using assms
  by (auto simp add: DeviceAdd_def SortedStringHas_def devices_strictly_ascending_def
      slice_elems_def strict_sorted_iff Let_def split: option.splits)

lemma DeviceDelete_ascending:
  assumes "devices_strictly_ascending n"
  shows "devices_strictly_ascending (DeviceDelete n id')"
    and "set (slice_elems (Devices (DeviceDelete n id'))) = set (slice_elems (Devices n)) - {id'}"
  using assms
  by (auto simp add: DeviceDelete_def SortedStringsDelete_def devices_strictly_ascending_def
      slice_elems_def strict_sorted_iff sorted_remove1 split: option.splits)

lemma devices_strictly_ascending_distinct:
  "devices_strictly_ascending n \<Longrightarrow> distinct (slice_elems (Devices n))"
  by (simp add: devices_strictly_ascending_def strict_sorted_iff)

text \<open>
  Claim C2. From a record whose \<^verbatim>\<open>Devices\<close> is strictly ascending, every sequence of
  \<^verbatim>\<open>DeviceAdd\<close> and \<^verbatim>\<open>DeviceDelete\<close> calls in which each added identifier is not
  present at the moment of its call runs to the end without a panic and leaves
  \<^verbatim>\<open>Devices\<close> strictly ascending, without duplicates.
\<close>

theorem device_calls_strictly_ascending:
  "devices_strictly_ascending n \<Longrightarrow>
   device_calls_respect (set (slice_elems (Devices n))) cs \<Longrightarrow>
     \<exists>n'. device_calls n cs = Done n' \<and> devices_strictly_ascending n' \<and>
       distinct (slice_elems (Devices n'))"
proof (induction n cs rule: device_calls.induct)
  case (1 n)
  then show ?case by (simp add: devices_strictly_ascending_distinct)
next
  case (2 n id' cs)
  from "2.prems" obtain n' where n': "DeviceAdd n id' = Done n'" "devices_strictly_ascending n'"
    "set (slice_elems (Devices n')) = insert id' (set (slice_elems (Devices n)))"
    using DeviceAdd_ascending [of n id'] by auto
  with "2.prems" have "device_calls_respect (set (slice_elems (Devices n'))) cs" by simp
  from "2.IH" [OF n'(1) n'(2) this] n'(1) show ?case by simp
next
  case (3 n id' cs)
  then show ?case by (simp add: DeviceDelete_ascending)
qed

theorem device_calls_strictly_ascending_witness:
  "devices_strictly_ascending node_d1_d3 \<and>
   device_calls_respect (set (slice_elems (Devices node_d1_d3)))
     [CallDeviceAdd ''d2'', CallDeviceDelete ''d1'', CallDeviceAdd ''d0'',
      CallDeviceDelete ''zz''] \<and>
   device_calls node_d1_d3
     [CallDeviceAdd ''d2'', CallDeviceDelete ''d1'', CallDeviceAdd ''d0'',
      CallDeviceDelete ''zz''] = Done (node_d1_d3\<lparr>Devices := Some [''d0'', ''d2'', ''d3'']\<rparr>) \<and>
   devices_strictly_ascending (node_d1_d3\<lparr>Devices := Some [''d0'', ''d2'', ''d3'']\<rparr>)"
proof -
  let ?cs = "[CallDeviceAdd ''d2'', CallDeviceDelete ''d1'', CallDeviceAdd ''d0'',
      CallDeviceDelete ''zz'']"
  have h1: "devices_strictly_ascending node_d1_d3"
    by (simp add: node_d1_d3_def devices_strictly_ascending_def slice_elems_def)
  have h2: "device_calls_respect (set (slice_elems (Devices node_d1_d3))) ?cs"
    by (simp add: node_d1_d3_def slice_elems_def)
  have run: "device_calls node_d1_d3 ?cs =
      Done (node_d1_d3\<lparr>Devices := Some [''d0'', ''d2'', ''d3'']\<rparr>)"
    by (simp add: node_d1_d3_def DeviceAdd_def DeviceDelete_def SortedStringHas_def
        SortedStringsDelete_def slice_elems_def Let_def)
  from device_calls_strictly_ascending [OF h1 h2] run h1 h2 show ?thesis by simp
qed

text \<open>
  Claim C5. \<^verbatim>\<open>DeviceDelete(id)\<close> with an identifier that is not in \<^verbatim>\<open>Devices\<close>
  returns the record as it was; the function has no error result and no contract
  check, so nothing is signalled.
\<close>

theorem DeviceDelete_absent_noop:
  "id' \<notin> set (slice_elems (Devices n)) \<Longrightarrow> DeviceDelete n id' = n"
  by (simp add: DeviceDelete_def SortedStringsDelete_def)

theorem DeviceDelete_absent_noop_witness:
  "''zz'' \<notin> set (slice_elems (Devices node_d1_d3)) \<and>
   DeviceDelete node_d1_d3 ''zz'' = node_d1_d3 \<and>
   DeviceDelete (DeviceDelete node_d1_d3 ''zz'') ''zz'' = node_d1_d3"
proof -
  have h: "''zz'' \<notin> set (slice_elems (Devices node_d1_d3))"
    by (simp add: node_d1_d3_def slice_elems_def)
  from h DeviceDelete_absent_noop [OF h] show ?thesis by simp
qed

section \<open>Persistence: load and delete\<close>

lemmas stubs =
  decode_stub_def decode_fail_stub_def load_stub_def view_stub_def

text \<open>
  Claim C4. \<^verbatim>\<open>Delete\<close> on a record with a non-empty \<^verbatim>\<open>Devices\<close> returns
  \<^verbatim>\<open>ErrConflict\<close> and leaves the transaction, hence the value stored under the
  node's identifier, as it was. (\<^verbatim>\<open>Delete\<close> assigns to no field of the record; a
  \<^verbatim>\<open>nil\<close> transaction is rejected by the contract check before anything else.)
\<close>

theorem Delete_conflict_unchanged:
  "slice_elems (Devices n) \<noteq> [] \<Longrightarrow> Delete n (Some t) = Done (Some ErrConflict, t)"
  by (simp add: Delete_def)

theorem Delete_conflict_unchanged_witness:
  "slice_elems (Devices node_d1_d3) \<noteq> [] \<and>
   Delete node_d1_d3 (Some tx_node_n1) = Done (Some ErrConflict, tx_node_n1) \<and>
   tx_Bucket tx_node_n1 BOLTDB_BUCKET_NODE = Some [''n1'' \<mapsto> [1, 2, 3]]"
proof -
  have h: "slice_elems (Devices node_d1_d3) \<noteq> []"
    by (simp add: node_d1_d3_def slice_elems_def)
  have b: "tx_Bucket tx_node_n1 BOLTDB_BUCKET_NODE = Some [''n1'' \<mapsto> [1, 2, 3]]"
    by (simp add: tx_Bucket_def tx_node_n1_def)
  from h b Delete_conflict_unchanged [OF h, of tx_node_n1] show ?thesis by simp
qed

text \<open>
  Claim C6. \<^verbatim>\<open>NewNodeEntryFromId\<close>: without the node bucket the result is the fresh
  error "Unable to create node entry"; with the bucket and no value under \<open>id\<close> it is
  \<^verbatim>\<open>ErrNotFound\<close>; with a value it is what \<^verbatim>\<open>Unmarshal\<close> makes of the bytes, the
  record or the decoding error; and \<^verbatim>\<open>ErrNotFound\<close> is returned in no other case
  than the second.
\<close>

theorem NewNodeEntryFromId_cases:
  "(tx_Bucket t BOLTDB_BUCKET_NODE = None \<longrightarrow>
      NewNodeEntryFromId Decode (Some t) id' =
        Done (Inl (ErrorsNew ''Unable to create node entry''))) \<and>
   (\<forall>b. tx_Bucket t BOLTDB_BUCKET_NODE = Some b \<and> bucket_Get b id' = None \<longrightarrow>
      NewNodeEntryFromId Decode (Some t) id' = Done (Inl ErrNotFound)) \<and>
   (\<forall>b val. tx_Bucket t BOLTDB_BUCKET_NODE = Some b \<and> bucket_Get b id' = Some val \<longrightarrow>
      NewNodeEntryFromId Decode (Some t) id' =
        Done (case Unmarshal Decode NewNodeEntry val of
                (entry, Some err) \<Rightarrow> Inl err
              | (entry, None) \<Rightarrow> Inr entry)) \<and>
   (NewNodeEntryFromId Decode (Some t) id' = Done (Inl ErrNotFound) \<longleftrightarrow>
      (\<exists>b. tx_Bucket t BOLTDB_BUCKET_NODE = Some b \<and> bucket_Get b id' = None))"
  by (auto simp add: NewNodeEntryFromId_def Let_def Unmarshal_def
      split: option.splits prod.splits)

theorem NewNodeEntryFromId_cases_witness:
  "tx_Bucket tx_no_bucket BOLTDB_BUCKET_NODE = None \<and>
   NewNodeEntryFromId (decode_stub node_d1_d3) (Some tx_no_bucket) ''n1'' =
     Done (Inl (ErrorsNew ''Unable to create node entry'')) \<and>
   tx_Bucket tx_node_n1 BOLTDB_BUCKET_NODE = Some [''n1'' \<mapsto> [1, 2, 3]] \<and>
   bucket_Get [''n1'' \<mapsto> [1, 2, 3]] ''n2'' = None \<and>
   NewNodeEntryFromId (decode_stub node_d1_d3) (Some tx_node_n1) ''n2'' = Done (Inl ErrNotFound) \<and>
   bucket_Get [''n1'' \<mapsto> [1, 2, 3]] ''n1'' = Some [1, 2, 3] \<and>
   NewNodeEntryFromId (decode_stub node_d1_d3) (Some tx_node_n1) ''n1'' = Done (Inr node_d1_d3) \<and>
   NewNodeEntryFromId decode_fail_stub (Some tx_node_n1) ''n1'' =
     Done (Inl (GobError ''unexpected EOF''))"
proof -
  have h1: "tx_Bucket tx_no_bucket BOLTDB_BUCKET_NODE = None"
    by (simp add: tx_Bucket_def tx_no_bucket_def)
  have h2: "tx_Bucket tx_node_n1 BOLTDB_BUCKET_NODE = Some [''n1'' \<mapsto> [1, 2, 3]]"
    by (simp add: tx_Bucket_def tx_node_n1_def)
  have h3: "bucket_Get [''n1'' \<mapsto> [1, 2, 3]] ''n2'' = None"
    "bucket_Get [''n1'' \<mapsto> [1, 2, 3]] ''n1'' = Some [1, 2, 3]"
    by (simp_all add: bucket_Get_def)
  have u: "Unmarshal (decode_stub node_d1_d3) NewNodeEntry [1, 2, 3] = (node_d1_d3, None)"
    "Unmarshal decode_fail_stub NewNodeEntry [1, 2, 3] =
       (NewNodeEntry, Some (GobError ''unexpected EOF''))"
    by (simp_all add: Unmarshal_def stubs node_d1_d3_def)
  from h1 h2 h3 u
    NewNodeEntryFromId_cases [of tx_no_bucket "decode_stub node_d1_d3" "''n1''"]
    NewNodeEntryFromId_cases [of tx_node_n1 "decode_stub node_d1_d3" "''n2''"]
    NewNodeEntryFromId_cases [of tx_node_n1 "decode_stub node_d1_d3" "''n1''"]
    NewNodeEntryFromId_cases [of tx_node_n1 decode_fail_stub "''n1''"]
  show ?thesis by simp
qed

text \<open>
  Claim C7. When decoding succeeds and leaves \<^verbatim>\<open>Devices\<close> \<^verbatim>\<open>nil\<close>, \<^verbatim>\<open>Unmarshal\<close>
  sets it to the empty sequence; so no successful \<^verbatim>\<open>Unmarshal\<close>, and no record
  returned by \<^verbatim>\<open>NewNodeEntryFromId\<close>, has a \<^verbatim>\<open>nil\<close> \<^verbatim>\<open>Devices\<close>.
\<close>

theorem Unmarshal_repairs_nil_Devices:
  "(\<forall>m. Decode buffer n = (m, None) \<and> Devices m = None \<longrightarrow>
      Unmarshal Decode n buffer = (m\<lparr>Devices := Some []\<rparr>, None)) \<and>
   (\<forall>n'. Unmarshal Decode n buffer = (n', None) \<longrightarrow> Devices n' \<noteq> None) \<and>
   (\<forall>entry. NewNodeEntryFromId Decode tx id' = Done (Inr entry) \<longrightarrow>
      Devices entry \<noteq> None)"
  by (auto simp add: NewNodeEntryFromId_def Let_def Unmarshal_def
      split: option.splits prod.splits if_splits)

theorem Unmarshal_repairs_nil_Devices_witness:
  "decode_stub (node_10_7_3\<lparr>Devices := None\<rparr>) [1, 2, 3] NewNodeEntry =
     (node_10_7_3\<lparr>Devices := None\<rparr>, None) \<and>
   Devices (node_10_7_3\<lparr>Devices := None\<rparr>) = None \<and>
   Unmarshal (decode_stub (node_10_7_3\<lparr>Devices := None\<rparr>)) NewNodeEntry [1, 2, 3] =
     (node_10_7_3\<lparr>Devices := Some []\<rparr>, None) \<and>
   NewNodeEntryFromId (decode_stub (node_10_7_3\<lparr>Devices := None\<rparr>)) (Some tx_node_n1) ''n1'' =
     Done (Inr (node_10_7_3\<lparr>Devices := Some []\<rparr>)) \<and>
   Devices (node_10_7_3\<lparr>Devices := Some []\<rparr>) \<noteq> None"
proof -
  let ?m = "node_10_7_3\<lparr>Devices := None\<rparr>"
  have h: "decode_stub ?m [1, 2, 3] NewNodeEntry = (?m, None)" "Devices ?m = None"
    by (simp_all add: stubs)
  have u: "Unmarshal (decode_stub ?m) NewNodeEntry [1, 2, 3] = (?m\<lparr>Devices := Some []\<rparr>, None)"
    using h Unmarshal_repairs_nil_Devices [of "decode_stub ?m" "[1, 2, 3]" NewNodeEntry]
    by blast
  have l: "NewNodeEntryFromId (decode_stub ?m) (Some tx_node_n1) ''n1'' =
     Done (Inr (node_10_7_3\<lparr>Devices := Some []\<rparr>))"
    using u by (simp add: NewNodeEntryFromId_def tx_Bucket_def bucket_Get_def tx_node_n1_def)
  from h u l Unmarshal_repairs_nil_Devices
    [of "decode_stub ?m" "[1, 2, 3]" NewNodeEntry "Some tx_node_n1" "''n1''"]
  show ?thesis by simp
qed

lemma bucket_Delete_absent:
  assumes "writable t" and "tx_Bucket t name = Some b" and "bucket_Get b key = None"
  shows "bucket_Delete t name b key = (None, t)"
proof -
  have "b(key := None) = b"
    using assms(3) by (simp add: bucket_Get_def fun_upd_idem)
  moreover have "(buckets t)(name \<mapsto> b) = buckets t"
    using assms(2) by (simp add: tx_Bucket_def map_upd_triv)
  ultimately show ?thesis
    using assms(1) by (simp add: bucket_Delete_def)
qed

lemma bucket_Delete_twice:
  assumes "bucket_Delete t name b key = (None, t')"
  shows "tx_Bucket t' name = Some (b(key := None))"
    and "bucket_Delete t' name (b(key := None)) key = (None, t')"
  using assms
  by (auto simp add: bucket_Delete_def tx_Bucket_def split: if_splits)

lemma Delete_success:
  "Delete n (Some t) = Done (None, t') \<longleftrightarrow>
     slice_elems (Devices n) = [] \<and>
     (\<exists>b. tx_Bucket t BOLTDB_BUCKET_NODE = Some b \<and>
          bucket_Delete t BOLTDB_BUCKET_NODE b (Id_node (Info n)) = (None, t'))"
  by (auto simp add: Delete_def split: option.splits prod.splits)

text \<open>
  Claim C10. \<^verbatim>\<open>Delete\<close> on a record with an empty \<^verbatim>\<open>Devices\<close> never looks the
  identifier up: when the node bucket exists and the store's delete call succeeds it
  reports success. So deleting a record that was never saved succeeds and leaves the
  transaction as it was, deleting again after a successful delete succeeds again, and
  \<^verbatim>\<open>ErrNotFound\<close> is never the result.
\<close>

theorem Delete_without_existence_check:
  "(\<forall>b t'. slice_elems (Devices n) = [] \<and> tx_Bucket t BOLTDB_BUCKET_NODE = Some b \<and>
       bucket_Delete t BOLTDB_BUCKET_NODE b (Id_node (Info n)) = (None, t') \<longrightarrow>
       Delete n (Some t) = Done (None, t')) \<and>
   (\<forall>b. slice_elems (Devices n) = [] \<and> tx_Bucket t BOLTDB_BUCKET_NODE = Some b \<and>
       bucket_Get b (Id_node (Info n)) = None \<and> writable t \<longrightarrow>
       Delete n (Some t) = Done (None, t)) \<and>
   (\<forall>t'. Delete n (Some t) = Done (None, t') \<longrightarrow> Delete n (Some t') = Done (None, t')) \<and>
   (\<forall>tx r. Delete n tx = Done r \<longrightarrow> fst r \<noteq> Some ErrNotFound)"
proof (intro conjI allI impI)
  fix b t'
  assume "slice_elems (Devices n) = [] \<and> tx_Bucket t BOLTDB_BUCKET_NODE = Some b \<and>
       bucket_Delete t BOLTDB_BUCKET_NODE b (Id_node (Info n)) = (None, t')"
  then show "Delete n (Some t) = Done (None, t')"
    by (auto simp add: Delete_success)
next
  fix b
  assume a: "slice_elems (Devices n) = [] \<and> tx_Bucket t BOLTDB_BUCKET_NODE = Some b \<and>
       bucket_Get b (Id_node (Info n)) = None \<and> writable t"
  then have "bucket_Delete t BOLTDB_BUCKET_NODE b (Id_node (Info n)) = (None, t)"
    by (simp add: bucket_Delete_absent)
  with a show "Delete n (Some t) = Done (None, t)"
    by (auto simp add: Delete_success)
next
  fix t'
  assume "Delete n (Some t) = Done (None, t')"
  then obtain b where b: "slice_elems (Devices n) = []"
    "bucket_Delete t BOLTDB_BUCKET_NODE b (Id_node (Info n)) = (None, t')"
    by (auto simp add: Delete_success)
  from bucket_Delete_twice [OF b(2)] b(1) show "Delete n (Some t') = Done (None, t')"
    by (auto simp add: Delete_success)
next
  fix tx r
  assume "Delete n tx = Done r"
  then show "fst r \<noteq> Some ErrNotFound"
    by (auto simp add: Delete_def bucket_Delete_def
        split: option.splits if_splits prod.splits)
qed

theorem Delete_without_existence_check_witness:
  "slice_elems (Devices node_10_7_3) = [] \<and>
   tx_Bucket tx_node_n1 BOLTDB_BUCKET_NODE = Some [''n1'' \<mapsto> [1, 2, 3]] \<and>
   bucket_Get [''n1'' \<mapsto> [1, 2, 3]] (Id_node (Info (node_10_7_3\<lparr>Info := (Info node_10_7_3)\<lparr>Id_node := ''n2''\<rparr>\<rparr>))) = None \<and>
   writable tx_node_n1 \<and>
   Delete (node_10_7_3\<lparr>Info := (Info node_10_7_3)\<lparr>Id_node := ''n2''\<rparr>\<rparr>) (Some tx_node_n1) =
     Done (None, tx_node_n1)"
proof -
  let ?n = "node_10_7_3\<lparr>Info := (Info node_10_7_3)\<lparr>Id_node := ''n2''\<rparr>\<rparr>"
  have h: "slice_elems (Devices ?n) = []"
    "tx_Bucket tx_node_n1 BOLTDB_BUCKET_NODE = Some [''n1'' \<mapsto> [1, 2, 3]]"
    "bucket_Get [''n1'' \<mapsto> [1, 2, 3]] (Id_node (Info ?n)) = None"
    "writable tx_node_n1"
    by (simp_all add: node_10_7_3_def slice_elems_def tx_Bucket_def tx_node_n1_def
        bucket_Get_def)
  from h Delete_without_existence_check [of ?n tx_node_n1] have
    "Delete ?n (Some tx_node_n1) = Done (None, tx_node_n1)" by blast
  with h show ?thesis by simp
qed

section \<open>The view of a node: all devices or an error\<close>

lemma NewInfoReponse_loop_prefix:
  "\<forall>x\<in>set pre. \<exists>v. resolve_device load view t x = Inr v \<Longrightarrow>
     NewInfoReponse_loop load view t (pre @ rest) info =
     NewInfoReponse_loop load view t rest
       (info\<lparr>DevicesInfo := DevicesInfo info @
           map (\<lambda>x. projr (resolve_device load view t x)) pre\<rparr>)"
proof (induction pre arbitrary: info)
  case Nil
  then show ?case by simp
next
  case (Cons x pre)
  from Cons.prems obtain v where v: "resolve_device load view t x = Inr v" by auto
  then obtain device where d: "load t x = Inr device" "view device t = Inr v"
    by (auto simp add: resolve_device_def split: sum.splits)
  from Cons.prems have "\<forall>y\<in>set pre. \<exists>v. resolve_device load view t y = Inr v" by simp
  from Cons.IH [OF this] d v show ?case by simp
qed

lemma NewInfoReponse_loop_fail:
  "resolve_device load view t x = Inl err \<Longrightarrow>
     NewInfoReponse_loop load view t (x # post) info = Inl err"
  by (auto simp add: resolve_device_def split: sum.splits)

lemma first_failure:
  assumes "\<not> (\<forall>x\<in>set xs. \<exists>v. resolve_device load view t x = Inr v)"
  shows "\<exists>pre x post err. xs = pre @ x # post \<and>
           (\<forall>y\<in>set pre. \<exists>v. resolve_device load view t y = Inr v) \<and>
           resolve_device load view t x = Inl err"
proof -
  from assms have "\<exists>x\<in>set xs. \<not> (\<exists>v. resolve_device load view t x = Inr v)" by simp
  from split_list_first_prop [OF this]
  obtain pre x post where s: "xs = pre @ x # post"
    "\<not> (\<exists>v. resolve_device load view t x = Inr v)"
    "\<forall>y\<in>set pre. \<not> \<not> (\<exists>v. resolve_device load view t y = Inr v)"
    by blast
  from s(2) obtain err where "resolve_device load view t x = Inl err"
    by (cases "resolve_device load view t x") auto
  with s show ?thesis by blast
qed

text \<open>
  Claim C8. \<^verbatim>\<open>NewInfoReponse\<close> copies \<^verbatim>\<open>ClusterId\<close>, \<^verbatim>\<open>Hostnames\<close>, \<^verbatim>\<open>Id\<close>,
  \<^verbatim>\<open>Storage\<close> and \<^verbatim>\<open>Zone\<close> and resolves the identifiers of \<^verbatim>\<open>Devices\<close> in
  stored order, one view each. When every identifier resolves, the result is the view
  with all of them; when one fails, after a prefix that resolves, the result is its
  error and no view; so a view that is returned holds one device view for each
  identifier, in order.
\<close>

theorem NewInfoReponse_complete_or_error:
  "((\<forall>x\<in>set (slice_elems (Devices n)). \<exists>v. resolve_device load view t x = Inr v) \<longrightarrow>
      NewInfoReponse load view n (Some t) =
        Done (Inr \<lparr>Zone = Zone (Info n), Hostnames = Hostnames (Info n),
                   ClusterId = ClusterId (Info n), Id_node = Id_node (Info n),
                   Storage = Storage (Info n),
                   DevicesInfo = map (\<lambda>x. projr (resolve_device load view t x))
                                  (slice_elems (Devices n))\<rparr>)) \<and>
   (\<forall>pre x post err.
      slice_elems (Devices n) = pre @ x # post \<and>
      (\<forall>y\<in>set pre. \<exists>v. resolve_device load view t y = Inr v) \<and>
      resolve_device load view t x = Inl err \<longrightarrow>
      NewInfoReponse load view n (Some t) = Done (Inl err)) \<and>
   (\<forall>info. NewInfoReponse load view n (Some t) = Done (Inr info) \<longrightarrow>
      length (DevicesInfo info) = length (slice_elems (Devices n)) \<and>
      (\<forall>i<length (slice_elems (Devices n)).
         resolve_device load view t (slice_elems (Devices n) ! i) = Inr (DevicesInfo info ! i)))"
proof -
  let ?devs = "slice_elems (Devices n)"
  let ?ok = "\<forall>x\<in>set ?devs. \<exists>v. resolve_device load view t x = Inr v"
  have all: "NewInfoReponse load view n (Some t) =
        Done (Inr \<lparr>Zone = Zone (Info n), Hostnames = Hostnames (Info n),
                   ClusterId = ClusterId (Info n), Id_node = Id_node (Info n),
                   Storage = Storage (Info n),
                   DevicesInfo = map (\<lambda>x. projr (resolve_device load view t x)) ?devs\<rparr>)"
    if ?ok
    using NewInfoReponse_loop_prefix [OF that, of "[]"]
    by (simp add: NewInfoReponse_def)
  have fail: "NewInfoReponse load view n (Some t) = Done (Inl err)"
    if "?devs = pre @ x # post"
      and "\<forall>y\<in>set pre. \<exists>v. resolve_device load view t y = Inr v"
      and "resolve_device load view t x = Inl err"
    for pre x post err
    using that(1) NewInfoReponse_loop_prefix [OF that(2), of "x # post"]
      NewInfoReponse_loop_fail [OF that(3)]
    by (simp add: NewInfoReponse_def)
  have whole: "length (DevicesInfo info) = length ?devs \<and>
      (\<forall>i<length ?devs. resolve_device load view t (?devs ! i) = Inr (DevicesInfo info ! i))"
    if r: "NewInfoReponse load view n (Some t) = Done (Inr info)" for info
  proof (cases ?ok)
    case True
    from all [OF True] r have "DevicesInfo info =
       map (\<lambda>x. projr (resolve_device load view t x)) ?devs" by auto
    moreover have "resolve_device load view t (?devs ! i) =
        Inr (projr (resolve_device load view t (?devs ! i)))" if "i < length ?devs" for i
      using True that by (metis nth_mem sum.sel(2))
    ultimately show ?thesis by simp
  next
    case False
    from first_failure [OF False] fail r show ?thesis by fastforce
  qed
  from all fail whole show ?thesis by blast
qed


theorem NewInfoReponse_complete_or_error_witness:
  "slice_elems (Devices node_d1_d3) = [''d1'', ''d3''] \<and>
   resolve_device load_stub view_stub tx_node_n1 ''d1'' = Inr 2 \<and>
   resolve_device load_stub view_stub tx_node_n1 ''d3'' = Inr 2 \<and>
   NewInfoReponse load_stub view_stub node_d1_d3 (Some tx_node_n1) =
     Done (Inr \<lparr>Zone = 1, Hostnames = [''h1''], ClusterId = ''c1'', Id_node = ''n1'',
                Storage = \<lparr>Total = 10, Free = 7, Used = 3\<rparr>, DevicesInfo = [2, 2]\<rparr>) \<and>
   slice_elems (Devices node_d1_d9_d3) = [''d1''] @ ''d9'' # [''d3''] \<and>
   resolve_device load_stub view_stub tx_node_n1 ''d9'' = Inl ErrNotFound \<and>
   NewInfoReponse load_stub view_stub node_d1_d9_d3 (Some tx_node_n1) = Done (Inl ErrNotFound)"
proof -
  have r: "resolve_device load_stub view_stub tx_node_n1 ''d1'' = Inr 2"
    "resolve_device load_stub view_stub tx_node_n1 ''d3'' = Inr 2"
    "resolve_device load_stub view_stub tx_node_n1 ''d9'' = Inl ErrNotFound"
    by (simp_all add: resolve_device_def stubs)
  have e: "slice_elems (Devices node_d1_d3) = [''d1'', ''d3'']"
    "slice_elems (Devices node_d1_d9_d3) = [''d1''] @ ''d9'' # [''d3'']"
    by (simp_all add: slice_elems_def node_d1_d3_def node_d1_d9_d3_def)
  have ok: "\<forall>x\<in>set (slice_elems (Devices node_d1_d3)).
      \<exists>v. resolve_device load_stub view_stub tx_node_n1 x = Inr v"
    using r e by simp
  have pre: "\<forall>y\<in>set [''d1'']. \<exists>v. resolve_device load_stub view_stub tx_node_n1 y = Inr v"
    using r by simp
  have a: "NewInfoReponse load_stub view_stub node_d1_d3 (Some tx_node_n1) =
     Done (Inr \<lparr>Zone = 1, Hostnames = [''h1''], ClusterId = ''c1'', Id_node = ''n1'',
                Storage = \<lparr>Total = 10, Free = 7, Used = 3\<rparr>, DevicesInfo = [2, 2]\<rparr>)"
    using NewInfoReponse_complete_or_error
      [of node_d1_d3 load_stub view_stub tx_node_n1, THEN conjunct1, THEN mp, OF ok] r e
    by (simp add: node_d1_d3_def node_10_7_3_def)
  have b: "NewInfoReponse load_stub view_stub node_d1_d9_d3 (Some tx_node_n1) =
     Done (Inl ErrNotFound)"
    using NewInfoReponse_complete_or_error
      [of node_d1_d9_d3 load_stub view_stub tx_node_n1, THEN conjunct2, THEN conjunct1]
      e(2) pre r(3)
    by blast
  from a b e r show ?thesis by simp
qed

end
